theory Spec2Isabelle
  imports Main "HOL-Library.Word" "HOL-Library.Multiset" "HOL-Library.Sublist"
begin

section \<open>The bh\_tsne wrapper (src/tsne/bhtsne.py)\<close>

text \<open>
  The function \<open>bh_tsne\<close> of \<^verbatim>\<open>bhtsne.py\<close> writes a binary request file
  \<^verbatim>\<open>data.dat\<close> into a temporary directory, runs the external \<^verbatim>\<open>bh_tsne\<close>
  binary there, reads the binary file \<^verbatim>\<open>result.dat\<close> the binary leaves behind,
  sorts the embedding vectors by their landmark index and yields them.

  The model below follows the function block by block. Files are lists of bytes,
  Python integers are \<open>int\<close>, a float is the 64-bit pattern of its IEEE double,
  every exception of the source is a value of the type \<open>error\<close>, and the
  temporary directory and its two files are an explicit state that each step
  returns updated. The external binary is a parameter of the model.
\<close>

subsection \<open>Bytes, integers and floats\<close>

type_synonym byte = "8 word"

text \<open>A Python float: the bit pattern of its IEEE 754 double.\<close>

type_synonym float64 = "64 word"

text \<open>
  The exceptions the function can raise: \<open>samples[0]\<close> on an empty list
  (IndexError), \<open>pack\<close> and \<open>unpack\<close> (struct.error), \<open>open\<close> of a
  missing result file (IOError) and the \<open>assert\<close> on the return code
  (AssertionError, with its message).
\<close>

datatype error = IndexError | StructError | IOError | AssertionError string

text \<open>Little-endian bytes of a natural number, least significant byte first.\<close>

fun le_encode :: "nat \<Rightarrow> nat \<Rightarrow> byte list" where
  "le_encode 0 v = []"
| "le_encode (Suc k) v = of_nat (v mod 256) # le_encode k (v div 256)"

fun le_decode :: "byte list \<Rightarrow> nat" where
  "le_decode [] = 0"
| "le_decode (b # bs) = unat b + 256 * le_decode bs"

text \<open>The range of the struct format \<open>i\<close>: a signed 32-bit integer.\<close>

definition int32_ok :: "int \<Rightarrow> bool" where
  "int32_ok v \<longleftrightarrow> - 2147483648 \<le> v \<and> v \<le> 2147483647"

text \<open>The four bytes of an \<open>i\<close> field: two's complement, little-endian.\<close>

definition le32 :: "int \<Rightarrow> byte list" where
  "le32 v = le_encode 4 (nat (v mod 4294967296))"

text \<open>\<open>pack('i', v)\<close>: struct.error when \<open>v\<close> does not fit.\<close>

definition pack_i :: "int \<Rightarrow> error + byte list" where
  "pack_i v = (if int32_ok v then Inr (le32 v) else Inl StructError)"

text \<open>\<open>unpack('i', b)\<close> on four bytes.\<close>

definition unpack_i :: "byte list \<Rightarrow> int" where
  "unpack_i b =
     (let u = int (le_decode b) in if 2147483648 \<le> u then u - 4294967296 else u)"

text \<open>\<open>pack('d', x)\<close> and \<open>unpack('d', b)\<close>: the eight bytes of the double.\<close>

definition pack_d :: "float64 \<Rightarrow> byte list" where
  "pack_d x = le_encode 8 (unat x)"

definition unpack_d :: "byte list \<Rightarrow> float64" where
  "unpack_d b = of_nat (le_decode b)"

text \<open>\<open>pack('{}d'.format(len(sample)), *sample)\<close>: the doubles one after another.\<close>

definition pack_ds :: "float64 list \<Rightarrow> byte list" where
  "pack_ds sample = concat (map pack_d sample)"

text \<open>\<open>unpack('{}d'.format(k), b)\<close> on \<open>8 * k\<close> bytes.\<close>

fun unpack_ds :: "nat \<Rightarrow> byte list \<Rightarrow> float64 list" where
  "unpack_ds 0 b = []"
| "unpack_ds (Suc k) b = unpack_d (take 8 b) # unpack_ds k (drop 8 b)"

text \<open>
  \<open>pack('iiddi', sample_count, sample_dim, theta, perplexity, no_dims)\<close>. In
  native mode the fields sit at offsets 0, 4, 8, 16 and 24, so there is no padding
  between them; the result has 28 bytes.
\<close>

definition pack_iiddi :: "int \<Rightarrow> int \<Rightarrow> float64 \<Rightarrow> float64 \<Rightarrow> int \<Rightarrow> error + byte list" where
  "pack_iiddi sample_count sample_dim theta perplexity no_dims =
     (if int32_ok sample_count \<and> int32_ok sample_dim \<and> int32_ok no_dims
      then Inr (le32 sample_count @ le32 sample_dim @ pack_d theta @ pack_d perplexity
                @ le32 no_dims)
      else Inl StructError)"

subsection \<open>Constants\<close>

definition DEFAULT_NO_DIMS :: int where
  "DEFAULT_NO_DIMS = 2"

text \<open>The doubles 30.0 and 0.5.\<close>

definition DEFAULT_PERPLEXITY :: float64 where
  "DEFAULT_PERPLEXITY = 0x403E000000000000"

definition DEFAULT_THETA :: float64 where
  "DEFAULT_THETA = 0x3FE0000000000000"

definition EMPTY_SEED :: int where
  "EMPTY_SEED = - 1"

subsection \<open>The temporary directory and the files in it\<close>

text \<open>
  The I/O actions of one call. \<open>Popen v\<close> starts the binary in the temporary
  directory and waits for it; its output goes to stderr if \<open>v\<close>, and to
  \<^verbatim>\<open>/dev/null\<close> otherwise.
\<close>

datatype io = Mkdtemp | Open_data | Write_data "byte list" | Popen bool | Open_result | Rmtree

text \<open>
  \<open>tmp_dir\<close>: the directory made by \<open>mkdtemp\<close> exists; \<open>data_dat\<close> and
  \<open>result_dat\<close>: the contents of the two files in it, \<open>None\<close> when the file does
  not exist; \<open>io_log\<close>: the actions so far, oldest first.
\<close>

record state =
  tmp_dir :: bool
  data_dat :: "byte list option"
  result_dat :: "byte list option"
  io_log :: "io list"

definition init :: state where
  "init = \<lparr>tmp_dir = False, data_dat = None, result_dat = None, io_log = []\<rparr>"

text \<open>\<open>TmpDir.__enter__\<close>: \<open>mkdtemp()\<close> makes a fresh, empty directory.\<close>

definition TmpDir_enter :: "state \<Rightarrow> state" where
  "TmpDir_enter s =
     s\<lparr>tmp_dir := True, data_dat := None, result_dat := None, io_log := io_log s @ [Mkdtemp]\<rparr>"

text \<open>\<open>TmpDir.__exit__\<close>: \<open>rmtree\<close> removes the directory and all it holds.\<close>

definition TmpDir_exit :: "state \<Rightarrow> state" where
  "TmpDir_exit s =
     s\<lparr>tmp_dir := False, data_dat := None, result_dat := None, io_log := io_log s @ [Rmtree]\<rparr>"

text \<open>\<open>open(path_join(tmp_dir_path, 'data.dat'), 'wb')\<close>: the file exists, empty.\<close>

definition open_data :: "state \<Rightarrow> state" where
  "open_data s = s\<lparr>data_dat := Some [], io_log := io_log s @ [Open_data]\<rparr>"

text \<open>\<open>data_file.write(b)\<close> appends to the file that \<open>open\<close> made.\<close>

definition data_write :: "byte list \<Rightarrow> state \<Rightarrow> state" where
  "data_write b s =
     s\<lparr>data_dat := map_option (\<lambda>old. old @ b) (data_dat s),
       io_log := io_log s @ [Write_data b]\<rparr>"

subsection \<open>Writing the request (lines 110 to 118)\<close>

text \<open>The loop \<open>for sample in samples: data_file.write(pack(...))\<close>.\<close>

fun write_samples :: "float64 list list \<Rightarrow> state \<Rightarrow> state" where
  "write_samples [] s = s"
| "write_samples (sample # samples) s = write_samples samples (data_write (pack_ds sample) s)"

definition write_request ::
  "float64 list list \<Rightarrow> int \<Rightarrow> int \<Rightarrow> float64 \<Rightarrow> float64 \<Rightarrow> int \<Rightarrow> int \<Rightarrow> state
   \<Rightarrow> (error + unit) \<times> state" where
  "write_request samples sample_count sample_dim theta perplexity no_dims randseed s =
     (let s0 = open_data s in
      case pack_iiddi sample_count sample_dim theta perplexity no_dims of
        Inl e \<Rightarrow> (Inl e, s0)
      | Inr header \<Rightarrow>
          (let s1 = data_write header s0;
               s2 = write_samples samples s1
           in if randseed \<noteq> EMPTY_SEED
              then (case pack_i randseed of
                      Inl e \<Rightarrow> (Inl e, s2)
                    | Inr b \<Rightarrow> (Inr (), data_write b s2))
              else (Inr (), s2)))"

subsection \<open>Calling the binary (lines 121 to 130)\<close>

text \<open>
  The binary is a parameter: from the request file it finds in its working
  directory it gives its return code and the result file it leaves (\<open>None\<close>
  when it writes none).
\<close>

type_synonym engine = "byte list option \<Rightarrow> int \<times> byte list option"

text \<open>
  The message of the \<open>assert\<close>. Opening \<^verbatim>\<open>/dev/null\<close> for the output of
  the binary is left out of the log.
\<close>

definition assert_message :: "bool \<Rightarrow> string" where
  "assert_message verbose =
     ''ERROR: Call to bh_tsne exited with a non-zero return code exit status, please ''
     @ (if \<not> verbose then ''enable verbose mode and '' else '''')
     @ ''refer to the bh_tsne output for further details''"

definition call_engine :: "engine \<Rightarrow> bool \<Rightarrow> state \<Rightarrow> (error + unit) \<times> state" where
  "call_engine bh_tsne_bin verbose s =
     (let (returncode, out) = bh_tsne_bin (data_dat s);
          s' = s\<lparr>result_dat := out, io_log := io_log s @ [Popen verbose]\<rparr>
      in if returncode \<noteq> 0 then (Inl (AssertionError (assert_message verbose)), s')
         else (Inr (), s'))"

subsection \<open>Reading the result (lines 133 to 148)\<close>

text \<open>
  An open file is the list of the bytes not read yet. \<open>_read_unpack(fmt, fh)\<close>
  reads \<open>calcsize(fmt)\<close> bytes; \<open>unpack\<close> raises struct.error when the file
  had fewer.
\<close>

definition fh_read :: "nat \<Rightarrow> byte list \<Rightarrow> byte list \<times> byte list" where
  "fh_read n fh = (take n fh, drop n fh)"

definition read_unpack_i :: "byte list \<Rightarrow> error + (int \<times> byte list)" where
  "read_unpack_i fh =
     (let (b, fh') = fh_read 4 fh
      in if length b = 4 then Inr (unpack_i b, fh') else Inl StructError)"

definition read_unpack_ii :: "byte list \<Rightarrow> error + ((int \<times> int) \<times> byte list)" where
  "read_unpack_ii fh =
     (let (b, fh') = fh_read 8 fh
      in if length b = 8 then Inr ((unpack_i (take 4 b), unpack_i (drop 4 b)), fh')
         else Inl StructError)"

text \<open>
  \<open>_read_unpack('{}d'.format(result_dims), output_file)\<close>: a negative
  \<open>result_dims\<close> gives the format \<^verbatim>\<open>-1d\<close>, which \<open>calcsize\<close> rejects.
\<close>

definition read_unpack_ds :: "int \<Rightarrow> byte list \<Rightarrow> error + (float64 list \<times> byte list)" where
  "read_unpack_ds result_dims fh =
     (if result_dims < 0 then Inl StructError
      else (let (b, fh') = fh_read (8 * nat result_dims) fh
            in if length b = 8 * nat result_dims then Inr (unpack_ds (nat result_dims) b, fh')
               else Inl StructError))"

text \<open>
  \<open>[_read_unpack('{}d'.format(result_dims), output_file) for _ in xrange(result_samples)]\<close>;
  the first argument is the number of rounds left.
\<close>

fun read_vectors :: "nat \<Rightarrow> int \<Rightarrow> byte list \<Rightarrow> error + (float64 list list \<times> byte list)" where
  "read_vectors 0 result_dims fh = Inr ([], fh)"
| "read_vectors (Suc n) result_dims fh =
     (case read_unpack_ds result_dims fh of
        Inl e \<Rightarrow> Inl e
      | Inr (e, fh') \<Rightarrow>
          (case read_vectors n result_dims fh' of
             Inl err \<Rightarrow> Inl err
           | Inr (es, fh'') \<Rightarrow> Inr (e # es, fh'')))"

text \<open>\<open>[(_read_unpack('i', output_file), e) for e in results]\<close>.\<close>

fun read_landmarks ::
  "float64 list list \<Rightarrow> byte list \<Rightarrow> error + ((int \<times> float64 list) list \<times> byte list)" where
  "read_landmarks [] fh = Inr ([], fh)"
| "read_landmarks (e # es) fh =
     (case read_unpack_i fh of
        Inl err \<Rightarrow> Inl err
      | Inr (i, fh') \<Rightarrow>
          (case read_landmarks es fh' of
             Inl err \<Rightarrow> Inl err
           | Inr (ps, fh'') \<Rightarrow> Inr ((i, e) # ps, fh'')))"

subsection \<open>Sorting the tagged results (line 144)\<close>

text \<open>
  \<open>results.sort()\<close> compares the elements \<open>((i,), e)\<close> with Python's \<open><\<close> on
  tuples: the first position where the two tuples are not \<open>==\<close> decides. On floats
  \<open>==\<close> and \<open><\<close> are those of IEEE 754: a NaN is neither equal to nor less
  than anything, and the two zeros are equal.
\<close>

definition f64_isnan :: "float64 \<Rightarrow> bool" where
  "f64_isnan x \<longleftrightarrow> 0x7FF0000000000000 < unat (take_bit 63 x)"

definition f64_key :: "float64 \<Rightarrow> int" where
  "f64_key x = (if bit x 63 then - int (unat (take_bit 63 x)) else int (unat (take_bit 63 x)))"

definition f64_eq :: "float64 \<Rightarrow> float64 \<Rightarrow> bool" where
  "f64_eq x y \<longleftrightarrow> \<not> f64_isnan x \<and> \<not> f64_isnan y \<and> f64_key x = f64_key y"

definition f64_lt :: "float64 \<Rightarrow> float64 \<Rightarrow> bool" where
  "f64_lt x y \<longleftrightarrow> \<not> f64_isnan x \<and> \<not> f64_isnan y \<and> f64_key x < f64_key y"

fun tuple_lt :: "float64 list \<Rightarrow> float64 list \<Rightarrow> bool" where
  "tuple_lt [] [] = False"
| "tuple_lt [] (y # ys) = True"
| "tuple_lt (x # xs) [] = False"
| "tuple_lt (x # xs) (y # ys) = (if f64_eq x y then tuple_lt xs ys else f64_lt x y)"

definition result_lt :: "int \<times> float64 list \<Rightarrow> int \<times> float64 list \<Rightarrow> bool" where
  "result_lt p q = (if fst p = fst q then tuple_lt (snd p) (snd q) else fst p < fst q)"

text \<open>
  The sort is stable and uses \<open><\<close> only. It is modelled by the stable insertion
  sort, which gives the list every stable sort gives whenever \<open><\<close> orders the
  elements at hand consistently (always, unless a NaN is compared).
\<close>

fun sort_insert :: "int \<times> float64 list \<Rightarrow> (int \<times> float64 list) list \<Rightarrow> (int \<times> float64 list) list" where
  "sort_insert p [] = [p]"
| "sort_insert p (q # qs) = (if result_lt q p then q # sort_insert p qs else p # q # qs)"

fun results_sort :: "(int \<times> float64 list) list \<Rightarrow> (int \<times> float64 list) list" where
  "results_sort [] = []"
| "results_sort (p # ps) = sort_insert p (results_sort ps)"

text \<open>
  The whole \<open>with open(..., 'rb')\<close> block on an open file: the yielded vectors,
  in order, and the bytes of the file left unread when the block ends. Line 148,
  which would read the costs, is a comment in the source.
\<close>

definition read_results :: "byte list \<Rightarrow> error + (float64 list list \<times> byte list)" where
  "read_results output_file =
     (case read_unpack_ii output_file of
        Inl e \<Rightarrow> Inl e
      | Inr ((result_samples, result_dims), fh1) \<Rightarrow>
          (case read_vectors (nat result_samples) result_dims fh1 of
             Inl e \<Rightarrow> Inl e
           | Inr (results, fh2) \<Rightarrow>
               (case read_landmarks results fh2 of
                  Inl e \<Rightarrow> Inl e
                | Inr (tagged, fh3) \<Rightarrow> Inr (map snd (results_sort tagged), fh3))))"

text \<open>\<open>open(path_join(tmp_dir_path, 'result.dat'), 'rb')\<close>.\<close>

definition open_result :: "state \<Rightarrow> (error + byte list) \<times> state" where
  "open_result s =
     (let s' = s\<lparr>io_log := io_log s @ [Open_result]\<rparr>
      in case result_dat s of None \<Rightarrow> (Inl IOError, s') | Some b \<Rightarrow> (Inr b, s'))"

subsection \<open>The function bh\_tsne\<close>

text \<open>The body of \<open>with TmpDir() as tmp_dir_path\<close>.\<close>

definition with_body ::
  "engine \<Rightarrow> float64 list list \<Rightarrow> int \<Rightarrow> int \<Rightarrow> float64 \<Rightarrow> float64 \<Rightarrow> int \<Rightarrow> int \<Rightarrow> bool
   \<Rightarrow> state \<Rightarrow> (error + float64 list list) \<times> state" where
  "with_body bh_tsne_bin samples sample_count sample_dim theta perplexity no_dims randseed verbose s =
     (case write_request samples sample_count sample_dim theta perplexity no_dims randseed s of
        (Inl e, s1) \<Rightarrow> (Inl e, s1)
      | (Inr u, s1) \<Rightarrow>
          (case call_engine bh_tsne_bin verbose s1 of
             (Inl e, s2) \<Rightarrow> (Inl e, s2)
           | (Inr u', s2) \<Rightarrow>
               (case open_result s2 of
                  (Inl e, s3) \<Rightarrow> (Inl e, s3)
                | (Inr output_file, s3) \<Rightarrow>
                    (case read_results output_file of
                       Inl e \<Rightarrow> (Inl e, s3)
                     | Inr (vectors, unread) \<Rightarrow> (Inr vectors, s3)))))"

text \<open>
  \<open>bh_tsne(samples, no_dims, perplexity, theta, randseed, verbose, sample_dim)\<close>,
  run by a caller that iterates the generator to its end: the vectors yielded, or
  the exception raised, and the state afterwards. The binary comes first among
  the arguments. A caller that leaves an argument out passes its default:
  \<open>DEFAULT_NO_DIMS\<close>, \<open>DEFAULT_PERPLEXITY\<close>, \<open>DEFAULT_THETA\<close>,
  \<open>EMPTY_SEED\<close>, \<open>False\<close> and \<open>None\<close>.
\<close>

definition bh_tsne ::
  "engine \<Rightarrow> float64 list list \<Rightarrow> int \<Rightarrow> float64 \<Rightarrow> float64 \<Rightarrow> int \<Rightarrow> bool \<Rightarrow> int option
   \<Rightarrow> state \<Rightarrow> (error + float64 list list) \<times> state" where
  "bh_tsne bh_tsne_bin samples no_dims perplexity theta randseed verbose sample_dim s =
     (case (case sample_dim of
              None \<Rightarrow> (case samples of [] \<Rightarrow> Inl IndexError | x # xs \<Rightarrow> Inr (int (length x)))
            | Some d \<Rightarrow> Inr d) of
        Inl e \<Rightarrow> (Inl e, s)
      | Inr sample_dim' \<Rightarrow>
          (let sample_count = int (length samples);
               (r, s') = with_body bh_tsne_bin samples sample_count sample_dim' theta perplexity
                           no_dims randseed verbose (TmpDir_enter s)
           in (r, TmpDir_exit s')))"

subsection \<open>The two file layouts, and engines to run the function with\<close>

text \<open>The bytes of all \<open>write\<close> calls of a log, in order.\<close>

fun written :: "io list \<Rightarrow> byte list" where
  "written [] = []"
| "written (Write_data b # l) = b @ written l"
| "written (a # l) = written l"

text \<open>The seed that goes into the file (lines 117 and 118), if any.\<close>

definition sent_seed :: "int \<Rightarrow> int option" where
  "sent_seed randseed = (if randseed \<noteq> EMPTY_SEED then Some randseed else None)"

text \<open>
  The request layout in the words of the specification: int32 N, int32 D, float64
  theta, float64 perplexity, int32 output\_dims, the float64 values, then an int32
  seed only if there is one.
\<close>

definition request_file ::
  "int \<Rightarrow> int \<Rightarrow> float64 \<Rightarrow> float64 \<Rightarrow> int \<Rightarrow> float64 list \<Rightarrow> int option \<Rightarrow> byte list" where
  "request_file N D theta perplexity output_dims values seed =
     le32 N @ le32 D @ pack_d theta @ pack_d perplexity @ le32 output_dims
     @ concat (map pack_d values) @ (case seed of None \<Rightarrow> [] | Some r \<Rightarrow> le32 r)"

text \<open>Every integer of the request fits its int32 field.\<close>

definition fields_fit :: "float64 list list \<Rightarrow> int \<Rightarrow> int \<Rightarrow> int \<Rightarrow> bool" where
  "fields_fit samples sample_dim no_dims randseed \<longleftrightarrow>
     int32_ok (int (length samples)) \<and> int32_ok sample_dim \<and> int32_ok no_dims
     \<and> (randseed = EMPTY_SEED \<or> int32_ok randseed)"

text \<open>
  What the function returns once the request is written, from the return code and
  the result file of the binary (the rest of \<open>with_body\<close>).
\<close>

definition outcome :: "bool \<Rightarrow> int \<times> byte list option \<Rightarrow> error + float64 list list" where
  "outcome verbose r =
     (if fst r \<noteq> 0 then Inl (AssertionError (assert_message verbose))
      else case snd r of
             None \<Rightarrow> Inl IOError
           | Some f \<Rightarrow> (case read_results f of Inl e \<Rightarrow> Inl e | Inr (vs, u) \<Rightarrow> Inr vs))"

text \<open>
  Modelled from the spec: the result file, which the external engine writes. The
  header int32 resultCount, int32 resultDims, then the vectors, then one int32
  origin index for each vector, then the float64 costs.
\<close>

definition result_file ::
  "float64 list list \<Rightarrow> int \<Rightarrow> int list \<Rightarrow> float64 list \<Rightarrow> byte list" where
  "result_file vectors result_dims landmarks costs =
     le32 (int (length vectors)) @ le32 result_dims @ concat (map pack_ds vectors)
     @ concat (map le32 landmarks) @ pack_ds costs"

text \<open>Such a file holds what its header announces.\<close>

definition well_formed :: "float64 list list \<Rightarrow> int \<Rightarrow> int list \<Rightarrow> bool" where
  "well_formed vectors result_dims landmarks \<longleftrightarrow>
     int32_ok (int (length vectors)) \<and> int32_ok result_dims \<and> 0 \<le> result_dims
     \<and> list_all (\<lambda>v. length v = nat result_dims) vectors
     \<and> length landmarks = length vectors \<and> list_all int32_ok landmarks"

text \<open>
  Modelled from the spec: the mock engine of its test scenarios, which ignores
  the request and ends with a given return code and a given result file.
\<close>

definition mock_engine :: "int \<Rightarrow> byte list option \<Rightarrow> engine" where
  "mock_engine returncode out request = (returncode, out)"

text \<open>
  Modelled from the spec: the mock engine of its round-trip scenario, which
  echoes the samples. It reads N and D from the request header, copies the N * D
  values that follow the 28 header bytes, tags them with the indices 0 to N - 1
  and appends N costs.
\<close>

definition echo_engine :: engine where
  "echo_engine request =
     (case request of
        None \<Rightarrow> (1, None)
      | Some b \<Rightarrow>
          (let n = unpack_i (take 4 b);
               d = unpack_i (take 4 (drop 4 b));
               values = take (8 * (nat n * nat d)) (drop 28 b)
           in (0, Some (le32 n @ le32 d @ values
                        @ concat (map (\<lambda>i. le32 (int i)) [0..<nat n])
                        @ pack_ds (replicate (nat n) 0)))))"

text \<open>
  The two header fields of a result file, the number of bytes a file with this
  header has up to the end of its index block, and whether the file is too short
  for its header (or the header asks for vectors of negative length).
\<close>

definition header_count :: "byte list \<Rightarrow> int" where
  "header_count f = unpack_i (take 4 f)"

definition header_dims :: "byte list \<Rightarrow> int" where
  "header_dims f = unpack_i (take 4 (drop 4 f))"

definition announced :: "byte list \<Rightarrow> nat" where
  "announced f = 8 + nat (header_count f) * (8 * nat (header_dims f) + 4)"

definition truncated :: "byte list \<Rightarrow> bool" where
  "truncated f \<longleftrightarrow>
     length f < 8 \<or> 0 < header_count f \<and> (header_dims f < 0 \<or> length f < announced f)"

section \<open>Properties\<close>

subsection \<open>Packing and unpacking\<close>


lemma length_le_encode [simp]: "length (le_encode k v) = k"
  by (induction k arbitrary: v) auto

lemma le_decode_encode: "le_decode (le_encode k v) = v mod 256 ^ k"
proof (induction k arbitrary: v)
  case 0
  then show ?case by simp
next
  case (Suc k)
  have "unat (of_nat (v mod 256) :: byte) = v mod 256"
    by (simp add: unat_of_nat)
  then show ?case
    using Suc.IH [of "v div 256"]
    by (simp add: mod_mult2_eq)
qed

lemma length_le32 [simp]: "length (le32 v) = 4"
  by (simp add: le32_def)

lemma length_pack_d [simp]: "length (pack_d x) = 8"
  by (simp add: pack_d_def)

lemma unpack_d_pack_d [simp]: "unpack_d (pack_d x) = x"
proof -
  have "unat x < 2 ^ 64"
    using unsigned_less [of x] by simp
  then have "unat x mod 256 ^ 8 = unat x" by simp
  then show ?thesis
    by (simp add: unpack_d_def pack_d_def le_decode_encode)
qed

lemma int32_mod:
  assumes "int32_ok v"
  shows "v mod 4294967296 = (if 0 \<le> v then v else v + 4294967296)"
proof (cases "0 \<le> v")
  case True
  then show ?thesis using assms by (simp add: int32_ok_def)
next
  case False
  have "(v + 4294967296) mod 4294967296 = v + 4294967296"
    using assms False by (intro mod_pos_pos_trivial) (simp_all add: int32_ok_def)
  then show ?thesis using False by simp
qed

lemma unpack_i_le32: "int32_ok v \<Longrightarrow> unpack_i (le32 v) = v"
  unfolding unpack_i_def le32_def le_decode_encode Let_def
  by (auto simp: int32_mod int32_ok_def)

lemma length_pack_ds [simp]: "length (pack_ds xs) = 8 * length xs"
  by (induction xs) (auto simp: pack_ds_def)

lemma pack_ds_Cons: "pack_ds (x # xs) = pack_d x @ pack_ds xs"
  by (simp add: pack_ds_def)

lemma unpack_ds_pack_ds: "unpack_ds (length xs) (pack_ds xs) = xs"
  by (induction xs) (auto simp: pack_ds_Cons)

lemma read_unpack_ds_pack_ds:
  "read_unpack_ds (int (length v)) (pack_ds v @ fh) = Inr (v, fh)"
  by (simp add: read_unpack_ds_def fh_read_def unpack_ds_pack_ds)

lemma read_unpack_i_le32:
  "int32_ok i \<Longrightarrow> read_unpack_i (le32 i @ fh) = Inr (i, fh)"
  by (simp add: read_unpack_i_def fh_read_def unpack_i_le32)

lemma read_unpack_ii_le32:
  "int32_ok a \<Longrightarrow> int32_ok b \<Longrightarrow> read_unpack_ii (le32 a @ le32 b @ fh) = Inr ((a, b), fh)"
  by (simp add: read_unpack_ii_def fh_read_def unpack_i_le32)

subsection \<open>Reading packed data, sorting\<close>


lemma read_unpack_ds_packed:
  "0 \<le> K \<Longrightarrow> length v = nat K \<Longrightarrow> read_unpack_ds K (pack_ds v @ fh) = Inr (v, fh)"
  using read_unpack_ds_pack_ds [of v fh] by simp

lemma read_vectors_packed:
  "0 \<le> K \<Longrightarrow> \<forall>v\<in>set vs. length v = nat K \<Longrightarrow>
   read_vectors (length vs) K (concat (map pack_ds vs) @ fh) = Inr (vs, fh)"
  by (induction vs) (simp_all add: read_unpack_ds_packed)

lemma read_landmarks_packed:
  "length idxs = length vs \<Longrightarrow> \<forall>i\<in>set idxs. int32_ok i \<Longrightarrow>
   read_landmarks vs (concat (map le32 idxs) @ fh) = Inr (zip idxs vs, fh)"
proof (induction vs arbitrary: idxs)
  case Nil
  then show ?case by simp
next
  case (Cons v vs)
  then obtain i rest where idxs: "idxs = i # rest"
    by (cases idxs) auto
  with Cons show ?case
    by (simp add: read_unpack_i_le32)
qed

lemma mset_sort_insert: "mset (sort_insert p ps) = add_mset p (mset ps)"
  by (induction ps) auto

lemma mset_results_sort: "mset (results_sort ps) = mset ps"
  by (induction ps) (auto simp: mset_sort_insert)

lemma set_sort_insert: "set (sort_insert p ps) = insert p (set ps)"
  by (induction ps) auto

lemma result_lt_fst: "result_lt p q \<Longrightarrow> fst p \<le> fst q"
  by (auto simp: result_lt_def split: if_splits)

lemma not_result_lt_fst: "\<not> result_lt q p \<Longrightarrow> fst p \<le> fst q"
  by (auto simp: result_lt_def split: if_splits)

lemma sorted_sort_insert:
  "sorted (map fst ps) \<Longrightarrow> sorted (map fst (sort_insert p ps))"
proof (induction ps)
  case Nil
  then show ?case by simp
next
  case (Cons q qs)
  show ?case
  proof (cases "result_lt q p")
    case True
    have "fst q \<le> fst p" using True by (rule result_lt_fst)
    moreover have "\<forall>x\<in>set qs. fst q \<le> fst x" using Cons.prems by auto
    moreover have "sorted (map fst (sort_insert p qs))" using Cons by simp
    ultimately show ?thesis using True by (auto simp: set_sort_insert)
  next
    case False
    have "fst p \<le> fst q" using False by (rule not_result_lt_fst)
    then show ?thesis using False Cons.prems by auto
  qed
qed

lemma sorted_results_sort: "sorted (map fst (results_sort ps))"
  by (induction ps) (auto simp: sorted_sort_insert)

lemma length_results_sort [simp]: "length (results_sort ps) = length ps"
  using mset_results_sort [of ps] by (metis size_mset)

lemma set_results_sort [simp]: "set (results_sort ps) = set ps"
  using mset_results_sort [of ps] by (metis set_mset_mset)

lemma fst_results_sort:
  assumes "mset (map fst ps) = mset (map int [0..<N])"
  shows "map fst (results_sort ps) = map int [0..<N]"
proof -
  have m: "mset (map fst (results_sort ps)) = mset (map int [0..<N])"
    using assms mset_results_sort [of ps] by (metis mset_map)
  have s: "sorted (map int [0..<N])"
    by (simp add: sorted_map sorted_wrt_iff_nth_less)
  have "sort (map int [0..<N]) = map fst (results_sort ps)"
    using m sorted_results_sort by (intro properties_for_sort) simp_all
  moreover have "sort (map int [0..<N]) = map int [0..<N]"
    using s by (simp add: sorted_sort_id)
  ultimately show ?thesis by simp
qed

lemma reorder_by_origin:
  assumes "mset (map fst ps) = mset (map int [0..<N])"
  shows "length (map snd (results_sort ps)) = N
         \<and> (\<forall>p\<in>set ps. map snd (results_sort ps) ! nat (fst p) = snd p)"
proof -
  let ?qs = "results_sort ps"
  have f: "map fst ?qs = map int [0..<N]" using assms by (rule fst_results_sort)
  have len: "length ?qs = N" using f by (metis length_map length_upt minus_nat.diff_0)
  have d: "distinct (map fst ?qs)" unfolding f by (simp add: distinct_map inj_on_def)
  have "?qs ! nat (fst p) = p" if "p \<in> set ps" for p
  proof -
    from that have "p \<in> set ?qs" by simp
    then obtain j where j: "j < N" "?qs ! j = p" using len by (metis in_set_conv_nth)
    have "fst (?qs ! j) = int j"
      using f j(1) len by (metis nth_map nth_upt add_0 length_upt minus_nat.diff_0 length_map)
    then show ?thesis using j by auto
  qed
  then have "\<forall>p\<in>set ps. map snd ?qs ! nat (fst p) = snd p"
    using len f by (metis (no_types, lifting) in_set_conv_nth length_map nth_map set_results_sort nat_int nth_upt add_0 length_upt minus_nat.diff_0)
  then show ?thesis using len by simp
qed

subsection \<open>The request as written\<close>





lemma concat_pack_ds: "concat (map pack_ds samples) = concat (map pack_d (concat samples))"
  by (induction samples) (simp_all add: pack_ds_def)

lemma write_samples_state:
  "write_samples samples s =
     s\<lparr>data_dat := map_option (\<lambda>old. old @ concat (map pack_ds samples)) (data_dat s),
       io_log := io_log s @ map (\<lambda>x. Write_data (pack_ds x)) samples\<rparr>"
proof (induction samples arbitrary: s)
  case Nil
  then show ?case by (simp add: option.map_ident)
next
  case (Cons x xs)
  show ?case
    by (simp add: Cons.IH data_write_def option.map_comp comp_def)
qed

lemma write_request_ok:
  assumes "int32_ok (int (length samples))" "int32_ok d" "int32_ok no_dims"
    and "randseed = EMPTY_SEED \<or> int32_ok randseed"
  shows "write_request samples (int (length samples)) d theta perplexity no_dims randseed s =
     (Inr (),
      s\<lparr>data_dat := Some (request_file (int (length samples)) d theta perplexity no_dims (concat samples)
          (sent_seed randseed)),
        io_log := io_log s @ [Open_data,
           Write_data (le32 (int (length samples)) @ le32 d @ pack_d theta @ pack_d perplexity
                       @ le32 no_dims)]
          @ map (\<lambda>x. Write_data (pack_ds x)) samples
          @ (if randseed \<noteq> EMPTY_SEED then [Write_data (le32 randseed)] else [])\<rparr>)"
  using assms
  by (auto simp: write_request_def pack_iiddi_def pack_i_def Let_def write_samples_state
      request_file_def sent_seed_def concat_pack_ds data_write_def open_data_def)




lemma with_body_ok:
  assumes "fields_fit samples d no_dims randseed"
  shows "with_body engine samples (int (length samples)) d theta perplexity no_dims randseed verbose s =
     (outcome verbose (engine (Some (request_file (int (length samples)) d theta perplexity no_dims (concat samples)
          (sent_seed randseed)))),
      s\<lparr>data_dat := Some (request_file (int (length samples)) d theta perplexity no_dims (concat samples)
          (sent_seed randseed)),
        result_dat := snd (engine (Some (request_file (int (length samples)) d theta perplexity no_dims (concat samples)
          (sent_seed randseed)))),
        io_log := io_log s @ [Open_data,
           Write_data (le32 (int (length samples)) @ le32 d @ pack_d theta @ pack_d perplexity
                       @ le32 no_dims)]
          @ map (\<lambda>x. Write_data (pack_ds x)) samples
          @ (if randseed \<noteq> EMPTY_SEED then [Write_data (le32 randseed)] else [])
          @ [Popen verbose]
          @ (if fst (engine (Some (request_file (int (length samples)) d theta perplexity no_dims (concat samples)
          (sent_seed randseed)))) = 0
             then [Open_result] else [])\<rparr>)"
proof -
  let ?req = "request_file (int (length samples)) d theta perplexity no_dims (concat samples)
          (sent_seed randseed)"
  obtain rc out where e: "engine (Some ?req) = (rc, out)"
    by (cases "engine (Some ?req)")
  have w: "write_request samples (int (length samples)) d theta perplexity no_dims randseed s = 
     (Inr (),
      s\<lparr>data_dat := Some (request_file (int (length samples)) d theta perplexity no_dims (concat samples)
          (sent_seed randseed)),
        io_log := io_log s @ [Open_data,
           Write_data (le32 (int (length samples)) @ le32 d @ pack_d theta @ pack_d perplexity
                       @ le32 no_dims)]
          @ map (\<lambda>x. Write_data (pack_ds x)) samples
          @ (if randseed \<noteq> EMPTY_SEED then [Write_data (le32 randseed)] else [])\<rparr>)"
    using assms by (intro write_request_ok) (simp_all add: fields_fit_def)
  show ?thesis
    unfolding with_body_def w
    by (simp add: call_engine_def e open_result_def outcome_def Let_def
        split: option.splits sum.splits)
qed

lemma bh_tsne_ok:
  assumes "fields_fit samples d no_dims randseed"
    and "sample_dim = Some d \<or> sample_dim = None \<and> samples \<noteq> [] \<and> d = int (length (hd samples))"
  shows "bh_tsne engine samples no_dims perplexity theta randseed verbose sample_dim s =
     (outcome verbose (engine (Some (request_file (int (length samples)) d theta perplexity no_dims (concat samples)
          (sent_seed randseed)))),
      s\<lparr>tmp_dir := False, data_dat := None, result_dat := None,
        io_log := io_log s @ [Mkdtemp, Open_data,
           Write_data (le32 (int (length samples)) @ le32 d @ pack_d theta @ pack_d perplexity
                       @ le32 no_dims)]
          @ map (\<lambda>x. Write_data (pack_ds x)) samples
          @ (if randseed \<noteq> EMPTY_SEED then [Write_data (le32 randseed)] else [])
          @ [Popen verbose]
          @ (if fst (engine (Some (request_file (int (length samples)) d theta perplexity no_dims (concat samples)
          (sent_seed randseed)))) = 0
             then [Open_result] else [])
          @ [Rmtree]\<rparr>)"
proof -
  have dim: "(case sample_dim of
              None \<Rightarrow> (case samples of [] \<Rightarrow> Inl IndexError | x # xs \<Rightarrow> Inr (int (length x)))
            | Some d \<Rightarrow> Inr d) = Inr d"
    using assms(2) by (auto split: list.splits)
  show ?thesis
    unfolding bh_tsne_def dim
    by (simp add: with_body_ok [OF assms(1)] TmpDir_enter_def TmpDir_exit_def)
qed

subsection \<open>The result as read\<close>




lemma read_results_result_file:
  assumes "well_formed vs K idxs"
  shows "read_results (result_file vs K idxs costs)
         = Inr (map snd (results_sort (zip idxs vs)), pack_ds costs)"
proof -
  have a: "int32_ok (int (length vs))" "int32_ok K" "0 \<le> K" "\<forall>v\<in>set vs. length v = nat K"
    "length idxs = length vs" "\<forall>i\<in>set idxs. int32_ok i"
    using assms by (simp_all add: well_formed_def list_all_iff)
  have h: "read_unpack_ii (result_file vs K idxs costs)
      = Inr ((int (length vs), K), concat (map pack_ds vs) @ concat (map le32 idxs) @ pack_ds costs)"
    unfolding result_file_def using a(1,2) by (simp add: read_unpack_ii_le32)
  have v: "read_vectors (length vs) K (concat (map pack_ds vs) @ concat (map le32 idxs) @ pack_ds costs)
      = Inr (vs, concat (map le32 idxs) @ pack_ds costs)"
    using a(3,4) by (rule read_vectors_packed)
  have l: "read_landmarks vs (concat (map le32 idxs) @ pack_ds costs) = Inr (zip idxs vs, pack_ds costs)"
    using a(5,6) by (rule read_landmarks_packed)
  show ?thesis
    by (simp add: read_results_def h v l)
qed

text \<open>What a successful and what a failed read say about the length of the file.\<close>

lemma read_unpack_ds_Inr:
  "read_unpack_ds K fh = Inr (v, fh') \<Longrightarrow> 0 \<le> K \<and> 8 * nat K \<le> length fh \<and> fh' = drop (8 * nat K) fh"
  by (auto simp: read_unpack_ds_def fh_read_def Let_def split: if_splits)

lemma read_unpack_ds_Inl:
  "read_unpack_ds K fh = Inl e \<Longrightarrow> e = StructError \<and> (K < 0 \<or> length fh < 8 * nat K)"
  by (auto simp: read_unpack_ds_def fh_read_def Let_def split: if_splits)

lemma read_vectors_Inr:
  "read_vectors n K fh = Inr (vs, fh') \<Longrightarrow>
     length vs = n \<and> (n = 0 \<or> 0 \<le> K \<and> n * (8 * nat K) \<le> length fh) \<and> fh' = drop (n * (8 * nat K)) fh"
proof (induction n arbitrary: fh vs)
  case 0
  then show ?case by simp
next
  case (Suc n)
  from Suc.prems obtain v fh1 where 1: "read_unpack_ds K fh = Inr (v, fh1)"
    by (auto split: sum.splits)
  with Suc.prems obtain vs' where 2: "read_vectors n K fh1 = Inr (vs', fh')" and vs: "vs = v # vs'"
    by (auto split: sum.splits)
  from read_unpack_ds_Inr [OF 1] have k: "0 \<le> K" "8 * nat K \<le> length fh" "fh1 = drop (8 * nat K) fh"
    by simp_all
  from Suc.IH [OF 2] have ih: "length vs' = n"
    "n = 0 \<or> 0 \<le> K \<and> n * (8 * nat K) \<le> length fh1" "fh' = drop (n * (8 * nat K)) fh1"
    by simp_all
  have "Suc n * (8 * nat K) \<le> length fh"
    using ih(2) k by (cases "n = 0") auto
  then show ?case using vs ih k by (simp add: add.commute)
qed

lemma read_vectors_Inl:
  "read_vectors n K fh = Inl e \<Longrightarrow>
     e = StructError \<and> 0 < n \<and> (K < 0 \<or> length fh < n * (8 * nat K))"
proof (induction n arbitrary: fh)
  case 0
  then show ?case by simp
next
  case (Suc n)
  show ?case
  proof (cases "read_unpack_ds K fh")
    case (Inl e')
    with Suc.prems have "e = e'" by simp
    with read_unpack_ds_Inl [OF Inl] show ?thesis
      by (auto intro: trans_less_add1)
  next
    case (Inr r)
    obtain v fh1 where r: "r = (v, fh1)" by (cases r)
    from Inr r Suc.prems have 2: "read_vectors n K fh1 = Inl e"
      by (auto split: sum.splits)
    from read_unpack_ds_Inr [OF Inr [unfolded r]]
    have k: "0 \<le> K" "8 * nat K \<le> length fh" "fh1 = drop (8 * nat K) fh" by simp_all
    from Suc.IH [OF 2] k show ?thesis by auto
  qed
qed

lemma read_landmarks_Inr:
  "read_landmarks es fh = Inr (ps, fh') \<Longrightarrow>
     map snd ps = es \<and> 4 * length es \<le> length fh \<and> fh' = drop (4 * length es) fh"
proof (induction es arbitrary: fh ps)
  case Nil
  then show ?case by simp
next
  case (Cons e es)
  from Cons.prems obtain i fh1 where 1: "read_unpack_i fh = Inr (i, fh1)"
    by (auto split: sum.splits)
  with Cons.prems obtain ps' where 2: "read_landmarks es fh1 = Inr (ps', fh')" and ps: "ps = (i, e) # ps'"
    by (auto split: sum.splits)
  from 1 have k: "4 \<le> length fh" "fh1 = drop 4 fh"
    by (auto simp: read_unpack_i_def fh_read_def Let_def split: if_splits)
  from Cons.IH [OF 2] have ih: "map snd ps' = es" "4 * length es \<le> length fh1"
    "fh' = drop (4 * length es) fh1" by simp_all
  have "4 * length (e # es) \<le> length fh" using ih(2) k by simp
  then show ?case using ih ps k by (simp add: add.commute)
qed

lemma read_landmarks_Inl:
  "read_landmarks es fh = Inl e \<Longrightarrow> e = StructError \<and> length fh < 4 * length es"
proof (induction es arbitrary: fh)
  case Nil
  then show ?case by simp
next
  case (Cons x es)
  show ?case
  proof (cases "read_unpack_i fh")
    case (Inl e')
    with Cons.prems have "e = e'" by simp
    with Inl show ?thesis
      by (auto simp: read_unpack_i_def fh_read_def Let_def split: if_splits)
  next
    case (Inr r)
    obtain i fh1 where r: "r = (i, fh1)" by (cases r)
    from Inr r Cons.prems have 2: "read_landmarks es fh1 = Inl e"
      by (auto split: sum.splits)
    from Inr r have k: "4 \<le> length fh" "fh1 = drop 4 fh"
      by (auto simp: read_unpack_i_def fh_read_def Let_def split: if_splits)
    from Cons.IH [OF 2] k show ?thesis by auto
  qed
qed


subsection \<open>The call as a whole\<close>

lemma bh_tsne_outcome:
  assumes "fields_fit samples d no_dims randseed"
    and "sample_dim = Some d \<or> sample_dim = None \<and> samples \<noteq> [] \<and> d = int (length (hd samples))"
  shows "fst (bh_tsne engine samples no_dims perplexity theta randseed verbose sample_dim s) =
     outcome verbose (engine (Some (request_file (int (length samples)) d theta perplexity no_dims
        (concat samples) (sent_seed randseed))))"
  by (simp add: bh_tsne_ok [OF assms])

lemma fields_fit_scenario:
  "fields_fit [[0x3FF0000000000000, 0], [0, 0x3FF0000000000000]] 2 2 EMPTY_SEED"
  by (simp add: fields_fit_def int32_ok_def)

lemma well_formed_scenario: "well_formed [[a, b], [c, d]] 2 [1, 0]"
  by (simp add: well_formed_def int32_ok_def)

subsection \<open>What the log holds\<close>

lemma written_append: "written (xs @ ys) = written xs @ written ys"
proof (induction xs)
  case Nil
  then show ?case by simp
next
  case (Cons a xs)
  then show ?case by (cases a) simp_all
qed

lemma written_writes: "written (map (\<lambda>x. Write_data (pack_ds x)) samples) = concat (map pack_ds samples)"
  by (induction samples) simp_all

lemma written_write_request:
  "written (io_log (snd (write_request samples n d theta perplexity no_dims randseed s))) =
     written (io_log s) @
     (if int32_ok n \<and> int32_ok d \<and> int32_ok no_dims
      then le32 n @ le32 d @ pack_d theta @ pack_d perplexity @ le32 no_dims
           @ concat (map pack_d (concat samples))
           @ (if randseed \<noteq> EMPTY_SEED \<and> int32_ok randseed then le32 randseed else [])
      else [])"
  by (simp add: write_request_def pack_iiddi_def pack_i_def Let_def write_samples_state
      data_write_def open_data_def written_append written_writes concat_pack_ds)

lemma written_with_body:
  "written (io_log (snd (with_body engine samples n d theta perplexity no_dims randseed verbose s))) =
   written (io_log (snd (write_request samples n d theta perplexity no_dims randseed s)))"
proof (cases "write_request samples n d theta perplexity no_dims randseed s")
  case (Pair r s1)
  show ?thesis
  proof (cases r)
    case (Inl e)
    with Pair show ?thesis by (simp add: with_body_def)
  next
    case (Inr u)
    with Pair show ?thesis
      by (auto simp: with_body_def call_engine_def open_result_def Let_def written_append
          split: prod.splits sum.splits option.splits)
  qed
qed

lemma written_bh_tsne:
  "written (io_log (snd (bh_tsne engine (x # xs) no_dims perplexity theta randseed verbose None s))) =
     written (io_log s) @
     (if int32_ok (int (length (x # xs))) \<and> int32_ok (int (length x)) \<and> int32_ok no_dims
      then le32 (int (length (x # xs))) @ le32 (int (length x)) @ pack_d theta @ pack_d perplexity
           @ le32 no_dims @ concat (map pack_d (concat (x # xs)))
           @ (if randseed \<noteq> EMPTY_SEED \<and> int32_ok randseed then le32 randseed else [])
      else [])"
proof -
  obtain r s' where w: "with_body engine (x # xs) (int (length (x # xs))) (int (length x)) theta
      perplexity no_dims randseed verbose (TmpDir_enter s) = (r, s')"
    by (cases "with_body engine (x # xs) (int (length (x # xs))) (int (length x)) theta
      perplexity no_dims randseed verbose (TmpDir_enter s)")
  have "written (io_log s') = written (io_log (snd (write_request (x # xs) (int (length (x # xs)))
      (int (length x)) theta perplexity no_dims randseed (TmpDir_enter s))))"
    using written_with_body [of engine "x # xs" "int (length (x # xs))" "int (length x)" theta
        perplexity no_dims randseed verbose "TmpDir_enter s"] w by simp
  moreover have "written (io_log (TmpDir_enter s)) = written (io_log s)"
    by (simp add: TmpDir_enter_def written_append)
  moreover have "snd (bh_tsne engine (x # xs) no_dims perplexity theta randseed verbose None s)
      = TmpDir_exit s'"
    using w by (simp add: bh_tsne_def del: length_Cons list.size)
  ultimately show ?thesis
    by (simp add: written_write_request TmpDir_exit_def written_append del: length_Cons list.size)
qed

lemma length_concat_same:
  "\<forall>x\<in>set samples. length x = D \<Longrightarrow> length (concat samples) = length samples * D"
  by (induction samples) simp_all

lemma length_concat_pack_d: "length (concat (map pack_d xs)) = 8 * length xs"
  by (induction xs) simp_all

lemma le32_inject: "int32_ok a \<Longrightarrow> int32_ok b \<Longrightarrow> le32 a = le32 b \<Longrightarrow> a = b"
  by (metis unpack_i_le32)

lemma bh_tsne_log:
  assumes "fields_fit samples d no_dims randseed"
    and "sample_dim = Some d \<or> sample_dim = None \<and> samples \<noteq> [] \<and> d = int (length (hd samples))"
  shows "Popen verbose \<in> set (io_log (snd (bh_tsne engine samples no_dims perplexity theta randseed
      verbose sample_dim s)))"
  by (simp add: bh_tsne_ok [OF assms])

subsection \<open>Success and failure of reading\<close>

lemma read_unpack_ii_Inr:
  "read_unpack_ii f = Inr ((M, K), fh) \<Longrightarrow>
     8 \<le> length f \<and> M = header_count f \<and> K = header_dims f \<and> fh = drop 8 f"
  by (auto simp: read_unpack_ii_def fh_read_def Let_def header_count_def header_dims_def
      drop_take min_def split: if_splits)

lemma read_unpack_ii_Inl: "read_unpack_ii f = Inl e \<Longrightarrow> e = StructError \<and> length f < 8"
  by (auto simp: read_unpack_ii_def fh_read_def Let_def split: if_splits)

lemma read_results_Inr:
  assumes "read_results f = Inr (out, rest)"
  shows "\<not> truncated f \<and> length out = nat (header_count f) \<and> rest = drop (announced f) f"
proof -
  from assms obtain M K fh1 where 1: "read_unpack_ii f = Inr ((M, K), fh1)"
    by (auto simp: read_results_def split: sum.splits)
  from assms 1 obtain vs fh2 where 2: "read_vectors (nat M) K fh1 = Inr (vs, fh2)"
    by (auto simp: read_results_def split: sum.splits)
  from assms 1 2 obtain ps where 3: "read_landmarks vs fh2 = Inr (ps, rest)"
    and out: "out = map snd (results_sort ps)"
    by (auto simp: read_results_def split: sum.splits)
  note a = read_unpack_ii_Inr [OF 1] read_vectors_Inr [OF 2] read_landmarks_Inr [OF 3]
  have len: "length out = nat M"
    using a out by (metis length_map length_results_sort)
  have n: "\<not> truncated f"
    using a by (auto simp: truncated_def announced_def algebra_simps)
  have "rest = drop (announced f) f"
    using a by (simp add: announced_def algebra_simps)
  with len n a show ?thesis by simp
qed

lemma read_results_Inl:
  assumes "read_results f = Inl e"
  shows "e = StructError \<and> truncated f"
proof (cases "read_unpack_ii f")
  case (Inl e')
  with assms have "e = e'" by (simp add: read_results_def)
  with read_unpack_ii_Inl [OF Inl] show ?thesis by (simp add: truncated_def)
next
  case (Inr r)
  obtain M K fh1 where r: "r = ((M, K), fh1)" by (cases r) auto
  note 1 = Inr [unfolded r]
  note a = read_unpack_ii_Inr [OF 1]
  show ?thesis
  proof (cases "read_vectors (nat M) K fh1")
    case (Inl e')
    with assms 1 have "e = e'" by (simp add: read_results_def)
    with read_vectors_Inl [OF Inl] a show ?thesis
      by (auto simp: truncated_def announced_def algebra_simps)
  next
    case (Inr r2)
    obtain vs fh2 where r2: "r2 = (vs, fh2)" by (cases r2)
    note 2 = Inr [unfolded r2]
    note b = read_vectors_Inr [OF 2]
    from assms 1 2 have 3: "read_landmarks vs fh2 = Inl e"
      by (auto simp: read_results_def split: sum.splits)
    from read_landmarks_Inl [OF 3] a b show ?thesis
      by (auto simp: truncated_def announced_def algebra_simps)
  qed
qed

lemma read_results_error: "read_results f = Inl e \<Longrightarrow> e = StructError"
  using read_results_Inl by blast

lemma well_formed_not_truncated:
  "well_formed vs K idxs \<Longrightarrow> \<not> truncated (result_file vs K idxs costs)"
  using read_results_Inr read_results_result_file by blast

lemma header_count_result_file:
  "int32_ok (int (length vs)) \<Longrightarrow> header_count (result_file vs K idxs costs) = int (length vs)"
  by (simp add: header_count_def result_file_def unpack_i_le32)

lemma outcome_assertion:
  "(\<exists>m. outcome verbose r = Inl (AssertionError m)) \<longleftrightarrow> fst r \<noteq> 0"
proof (cases "fst r \<noteq> 0")
  case True
  then show ?thesis by (simp add: outcome_def)
next
  case False
  have "outcome verbose r \<noteq> Inl (AssertionError m)" for m
  proof (cases "snd r")
    case None
    with False show ?thesis by (simp add: outcome_def)
  next
    case (Some f)
    show ?thesis
    proof (cases "read_results f")
      case (Inl e)
      with read_results_error [OF Inl] False Some show ?thesis by (simp add: outcome_def)
    next
      case (Inr p)
      with False Some show ?thesis by (cases p) (simp add: outcome_def)
    qed
  qed
  with False show ?thesis by simp
qed

lemma assert_message_False: "sublist ''enable verbose mode'' (assert_message False)"
proof -
  have "assert_message False =
      ''ERROR: Call to bh_tsne exited with a non-zero return code exit status, please ''
      @ ''enable verbose mode''
      @ '' and refer to the bh_tsne output for further details''"
    by (simp add: assert_message_def)
  then show ?thesis by (metis sublist_appendI)
qed

lemma assert_message_True: "\<not> sublist ''enable verbose mode'' (assert_message True)"
  by (simp add: assert_message_def sublist_Cons_right)

subsection \<open>The echoing engine\<close>

lemma echo_engine_request:
  assumes "int32_ok (int n)" "int32_ok (int d)" "length values = n * d"
  shows "echo_engine (Some (request_file (int n) (int d) theta perplexity no_dims values seed))
     = (0, Some (le32 (int n) @ le32 (int d) @ concat (map pack_d values)
                 @ concat (map (\<lambda>i. le32 (int i)) [0..<n]) @ pack_ds (replicate n 0)))"
proof -
  let ?b = "request_file (int n) (int d) theta perplexity no_dims values seed"
  have 1: "take 4 ?b = le32 (int n)" by (simp add: request_file_def)
  have 2: "take 4 (drop 4 ?b) = le32 (int d)" by (simp add: request_file_def)
  have 3: "drop 28 ?b = concat (map pack_d values) @ (case seed of None \<Rightarrow> [] | Some r \<Rightarrow> le32 r)"
    by (simp add: request_file_def)
  have 4: "take (8 * (n * d)) (drop 28 ?b) = concat (map pack_d values)"
    unfolding 3 using assms(3) by (simp add: length_concat_pack_d)
  show ?thesis
    using assms(1,2) by (simp add: echo_engine_def Let_def 1 2 4 unpack_i_le32)
qed

lemma sorted_tags_stay:
  assumes "length vs = n"
  shows "map snd (results_sort (zip (map int [0..<n]) vs)) = vs"
proof -
  let ?ps = "zip (map int [0..<n]) vs"
  have m: "map fst ?ps = map int [0..<n]" using assms by simp
  then have "mset (map fst ?ps) = mset (map int [0..<n])" by simp
  from reorder_by_origin [OF this]
  have len: "length (map snd (results_sort ?ps)) = n"
    and at: "\<forall>p\<in>set ?ps. map snd (results_sort ?ps) ! nat (fst p) = snd p"
    by simp_all
  show ?thesis
  proof (rule nth_equalityI)
    show "length (map snd (results_sort ?ps)) = length vs" using len assms by simp
  next
    fix j assume "j < length (map snd (results_sort ?ps))"
    then have j: "j < n" using len by simp
    then have "?ps ! j = (int j, vs ! j)" using assms by simp
    moreover have "?ps ! j \<in> set ?ps" using j assms by (intro nth_mem) simp
    ultimately have "(int j, vs ! j) \<in> set ?ps" by simp
    with at have "map snd (results_sort ?ps) ! nat (fst (int j, vs ! j)) = snd (int j, vs ! j)"
      by blast
    then show "map snd (results_sort ?ps) ! j = vs ! j" by simp
  qed
qed

lemma well_formed_echo:
  assumes "int32_ok (int (length samples))" "int32_ok (int D)" "\<forall>x\<in>set samples. length x = D"
  shows "well_formed samples (int D) (map int [0..<length samples])"
proof -
  have "int32_ok (int i)" if "i < length samples" for i
    using that assms(1) by (simp add: int32_ok_def)
  then show ?thesis
    using assms by (simp add: well_formed_def list_all_iff)
qed

section \<open>The claims\<close>

text \<open>
  C1. Whatever the order in which the engine emits the records, if their origin
  indices are exactly 0, ..., N - 1, each once, then sorting yields N vectors and
  the vector tagged with index i comes out at position i. In the scenario of the
  specification, the samples [[1.0, 0.0], [0.0, 1.0]] and an engine that emits
  (1, [a, b]) and then (0, [c, d]), the call yields [[c, d], [a, b]].
\<close>

theorem reorder_restores_input_order:
  assumes "mset (map fst tagged) = mset (map int [0..<N])"
  shows "length (map snd (results_sort tagged)) = N
     \<and> (\<forall>p\<in>set tagged. map snd (results_sort tagged) ! nat (fst p) = snd p)
     \<and> fst (bh_tsne (mock_engine 0 (Some (result_file [[a, b], [c, d]] 2 [1, 0] costs)))
              [[0x3FF0000000000000, 0], [0, 0x3FF0000000000000]] 2 perplexity theta
              EMPTY_SEED verbose None s)
         = Inr [[c, d], [a, b]]"
proof -
  have "fst (bh_tsne (mock_engine 0 (Some (result_file [[a, b], [c, d]] 2 [1, 0] costs)))
              [[0x3FF0000000000000, 0], [0, 0x3FF0000000000000]] 2 perplexity theta
              EMPTY_SEED verbose None s)
         = Inr [[c, d], [a, b]]"
    by (subst bh_tsne_outcome [where d = 2])
      (simp_all add: fields_fit_scenario outcome_def mock_engine_def
        read_results_result_file [OF well_formed_scenario] result_lt_def)
  with reorder_by_origin [OF assms] show ?thesis by simp
qed

theorem reorder_restores_input_order_witness:
  "mset (map fst [(2, [5]), (0, [6]), (1, [7 :: float64])]) = mset (map int [0..<3])
   \<and> map snd (results_sort [(2, [5]), (0, [6]), (1, [7 :: float64])]) = [[6], [7], [5]]
   \<and> map snd (results_sort [(2, [5]), (0, [6]), (1, [7 :: float64])]) ! nat 2 = [5]"
proof -
  have h: "mset (map fst [(2, [5]), (0, [6]), (1, [7 :: float64])]) = mset (map int [0..<3])"
    by (simp add: upt_rec numeral_nat)
  from reorder_restores_input_order [OF h]
  have "map snd (results_sort [(2, [5]), (0, [6]), (1, [7 :: float64])]) ! nat 2 = [5]"
    by simp
  moreover have "map snd (results_sort [(2, [5]), (0, [6]), (1, [7 :: float64])]) = [[6], [7], [5]]"
    by (simp add: result_lt_def)
  ultimately show ?thesis using h by simp
qed

text \<open>
  C2. For a non-empty batch whose samples all have length D (and whose counts
  fit their int32 fields), the bytes written are, in this order, int32 N, int32 D,
  float64 theta, float64 perplexity, int32 no\_dims, the N * D values sample by
  sample, and then the int32 seed exactly when \<open>randseed\<close> is not
  \<open>EMPTY_SEED\<close>, which is how a call says that it has a seed. This is
  the sequence of the writes, and the content of the file when the binary starts.
\<close>

theorem request_layout:
  assumes "samples \<noteq> []" and "\<forall>x\<in>set samples. length x = D"
    and "fields_fit samples (int D) no_dims randseed"
  shows "written (io_log (snd (bh_tsne engine samples no_dims perplexity theta randseed verbose
                                 None s)))
         = written (io_log s)
           @ request_file (int (length samples)) (int D) theta perplexity no_dims (concat samples)
               (if randseed \<noteq> EMPTY_SEED then Some randseed else None)
     \<and> data_dat (snd (write_request samples (int (length samples)) (int D) theta perplexity
                         no_dims randseed s))
         = Some (request_file (int (length samples)) (int D) theta perplexity no_dims
                   (concat samples) (if randseed \<noteq> EMPTY_SEED then Some randseed else None))
     \<and> length (concat samples) = length samples * D"
proof -
  obtain x xs where c: "samples = x # xs" using assms(1) by (cases samples) auto
  have d: "int (length x) = int D" using assms(2) c by simp
  have f: "int32_ok (int (length (x # xs)))" "int32_ok (int D)" "int32_ok no_dims"
    "randseed = EMPTY_SEED \<or> int32_ok randseed"
    using assms(3) c by (simp_all add: fields_fit_def)
  have 1: "written (io_log (snd (bh_tsne engine samples no_dims perplexity theta randseed verbose
                                 None s)))
         = written (io_log s)
           @ request_file (int (length samples)) (int D) theta perplexity no_dims (concat samples)
               (if randseed \<noteq> EMPTY_SEED then Some randseed else None)"
    unfolding c written_bh_tsne d using f
    by (auto simp: request_file_def simp del: length_Cons list.size)
  have 2: "data_dat (snd (write_request samples (int (length samples)) (int D) theta perplexity
                         no_dims randseed s))
         = Some (request_file (int (length samples)) (int D) theta perplexity no_dims
                   (concat samples) (if randseed \<noteq> EMPTY_SEED then Some randseed else None))"
  proof -
    have "int32_ok (int (length samples))" "int32_ok (int D)" "int32_ok no_dims"
      "randseed = EMPTY_SEED \<or> int32_ok randseed"
      using assms(3) by (simp_all add: fields_fit_def)
    from write_request_ok [OF this] show ?thesis by (simp add: sent_seed_def)
  qed
  from 1 2 length_concat_same [OF assms(2)] show ?thesis by simp
qed

theorem request_layout_witness:
  "written (io_log (snd (bh_tsne echo_engine [[1, 2], [3, 4]] 2 DEFAULT_PERPLEXITY DEFAULT_THETA 7
                          False None init)))
   = request_file 2 2 DEFAULT_THETA DEFAULT_PERPLEXITY 2 [1, 2, 3, 4] (Some 7)
   \<and> written (io_log (snd (bh_tsne echo_engine [[1, 2], [3, 4]] 2 DEFAULT_PERPLEXITY DEFAULT_THETA
                          EMPTY_SEED False None init)))
   = request_file 2 2 DEFAULT_THETA DEFAULT_PERPLEXITY 2 [1, 2, 3, 4] None"
proof -
  have a: "[[1, 2], [3, 4 :: float64]] \<noteq> []" "\<forall>x\<in>set [[1, 2], [3, 4 :: float64]]. length x = 2"
    by simp_all
  have b: "fields_fit [[1, 2], [3, 4]] (int 2) 2 7" "fields_fit [[1, 2], [3, 4]] (int 2) 2 EMPTY_SEED"
    by (simp_all add: fields_fit_def int32_ok_def)
  show ?thesis
    using request_layout [OF a b(1), where engine = echo_engine and perplexity = DEFAULT_PERPLEXITY
          and theta = DEFAULT_THETA and verbose = False and s = init]
      request_layout [OF a b(2), where engine = echo_engine and perplexity = DEFAULT_PERPLEXITY
          and theta = DEFAULT_THETA and verbose = False and s = init]
    by (simp add: init_def EMPTY_SEED_def)
qed

text \<open>
  C3, as stated, fails: the batch [[0.0], [0.0, 0.0]] has samples of two
  lengths, yet the request is written (with D = 1 and three values), the binary
  is started, and with a binary that answers the call returns its vectors.
\<close>

theorem differing_lengths_accepted:
  "fst (bh_tsne (mock_engine 0 (Some (result_file [[0, 0], [0, 0]] 2 [0, 1] [])))
         [[0], [0, 0]] 2 DEFAULT_PERPLEXITY DEFAULT_THETA EMPTY_SEED False None init)
     = Inr [[0, 0], [0, 0]]
   \<and> Popen False \<in> set (io_log (snd (bh_tsne
         (mock_engine 0 (Some (result_file [[0, 0], [0, 0]] 2 [0, 1] [])))
         [[0], [0, 0]] 2 DEFAULT_PERPLEXITY DEFAULT_THETA EMPTY_SEED False None init)))
   \<and> written (io_log (snd (bh_tsne
         (mock_engine 0 (Some (result_file [[0, 0], [0, 0]] 2 [0, 1] [])))
         [[0], [0, 0]] 2 DEFAULT_PERPLEXITY DEFAULT_THETA EMPTY_SEED False None init)))
     = request_file 2 1 DEFAULT_THETA DEFAULT_PERPLEXITY 2 [0, 0, 0] None"
proof -
  have f: "fields_fit [[0], [0, 0]] 1 2 EMPTY_SEED"
    by (simp add: fields_fit_def int32_ok_def)
  have d: "None = Some (1 :: int) \<or> (None :: int option) = None \<and> [[0], [0, 0 :: float64]] \<noteq> []
      \<and> 1 = int (length (hd [[0], [0, 0 :: float64]]))"
    by simp
  have w: "well_formed [[0, 0], [0, 0]] 2 [0, 1]"
    by (simp add: well_formed_def int32_ok_def)
  show ?thesis
    by (simp add: bh_tsne_ok [OF f d] outcome_def mock_engine_def
        read_results_result_file [OF w] result_lt_def init_def written_append
        request_file_def sent_seed_def pack_ds_def)
qed

text \<open>
  C3, amended. An empty batch (no \<open>sample_dim\<close> given) fails with the
  IndexError of \<open>samples[0]\<close> and leaves the state as it was: nothing is
  created, written or started. A non-empty batch is not checked: whatever the
  lengths of its samples, the request is written with D the length of the first
  sample, followed by the values of every sample, and the binary is started.
\<close>

theorem empty_batch_fails_first:
  "bh_tsne engine [] no_dims perplexity theta randseed verbose None s = (Inl IndexError, s)
   \<and> (samples \<noteq> [] \<and> fields_fit samples (int (length (hd samples))) no_dims randseed \<longrightarrow>
        Popen verbose \<in> set (io_log (snd (bh_tsne engine samples no_dims perplexity theta
                                            randseed verbose None s)))
        \<and> written (io_log (snd (bh_tsne engine samples no_dims perplexity theta randseed
                                    verbose None s)))
          = written (io_log s)
            @ request_file (int (length samples)) (int (length (hd samples))) theta perplexity
                no_dims (concat samples) (if randseed \<noteq> EMPTY_SEED then Some randseed else None))"
proof -
  have 1: "bh_tsne engine [] no_dims perplexity theta randseed verbose None s = (Inl IndexError, s)"
    by (simp add: bh_tsne_def)
  have 2: "Popen verbose \<in> set (io_log (snd (bh_tsne engine samples no_dims perplexity theta
                                            randseed verbose None s)))
        \<and> written (io_log (snd (bh_tsne engine samples no_dims perplexity theta randseed
                                    verbose None s)))
          = written (io_log s)
            @ request_file (int (length samples)) (int (length (hd samples))) theta perplexity
                no_dims (concat samples) (if randseed \<noteq> EMPTY_SEED then Some randseed else None)"
    if a: "samples \<noteq> []" "fields_fit samples (int (length (hd samples))) no_dims randseed"
  proof -
    obtain x xs where c: "samples = x # xs" using a(1) by (cases samples) auto
    have f: "int32_ok (int (length (x # xs)))" "int32_ok (int (length x))" "int32_ok no_dims"
      "randseed = EMPTY_SEED \<or> int32_ok randseed"
      using a(2) c by (simp_all add: fields_fit_def)
    have "written (io_log (snd (bh_tsne engine (x # xs) no_dims perplexity theta randseed
                                    verbose None s)))
          = written (io_log s)
            @ request_file (int (length (x # xs))) (int (length x)) theta perplexity
                no_dims (concat (x # xs)) (if randseed \<noteq> EMPTY_SEED then Some randseed else None)"
      unfolding written_bh_tsne using f
      by (auto simp: request_file_def simp del: length_Cons list.size)
    moreover have "Popen verbose \<in> set (io_log (snd (bh_tsne engine samples no_dims perplexity theta
                                            randseed verbose None s)))"
      using a by (intro bh_tsne_log) simp_all
    ultimately show ?thesis unfolding c list.sel by simp
  qed
  from 1 2 show ?thesis by blast
qed

theorem empty_batch_fails_first_witness:
  "bh_tsne echo_engine [] 2 DEFAULT_PERPLEXITY DEFAULT_THETA EMPTY_SEED False None init
     = (Inl IndexError, init)
   \<and> Popen False \<in> set (io_log (snd (bh_tsne echo_engine [[1], [2, 3]] 2 DEFAULT_PERPLEXITY
         DEFAULT_THETA EMPTY_SEED False None init)))
   \<and> written (io_log (snd (bh_tsne echo_engine [[1], [2, 3]] 2 DEFAULT_PERPLEXITY
         DEFAULT_THETA EMPTY_SEED False None init)))
     = request_file 2 1 DEFAULT_THETA DEFAULT_PERPLEXITY 2 [1, 2, 3] None"
proof -
  have a: "[[1], [2, 3 :: float64]] \<noteq> [] \<and>
      fields_fit [[1], [2, 3]] (int (length (hd [[1], [2, 3 :: float64]]))) 2 EMPTY_SEED"
    by (simp add: fields_fit_def int32_ok_def)
  note t = empty_batch_fails_first [where engine = echo_engine and no_dims = 2
      and perplexity = DEFAULT_PERPLEXITY and theta = DEFAULT_THETA and randseed = EMPTY_SEED
      and verbose = False and s = init and samples = "[[1], [2, 3]]"]
  from t [THEN conjunct1] t [THEN conjunct2, rule_format, OF a] show ?thesis
    by (simp add: init_def)
qed

text \<open>
  C4, as stated, fails: for one sample, a result file whose header announces two
  records, and holds them, is decoded without error into two vectors.
\<close>

theorem count_mismatch_accepted:
  "fst (bh_tsne (mock_engine 0 (Some (result_file [[0], [0]] 1 [0, 1] [])))
         [[0]] 2 DEFAULT_PERPLEXITY DEFAULT_THETA EMPTY_SEED False None init)
     = Inr [[0], [0]]
   \<and> header_count (result_file [[0], [0]] 1 [0, 1] []) = 2
   \<and> length [[0 :: float64]] = 1"
proof -
  have f: "fields_fit [[0]] 1 2 EMPTY_SEED"
    by (simp add: fields_fit_def int32_ok_def)
  have d: "None = Some (1 :: int) \<or> (None :: int option) = None \<and> [[0 :: float64]] \<noteq> []
      \<and> 1 = int (length (hd [[0 :: float64]]))"
    by simp
  have w: "well_formed [[0], [0]] 1 [0, 1]"
    by (simp add: well_formed_def int32_ok_def)
  have "header_count (result_file [[0], [0]] 1 [0, 1] []) = int (length [[0 :: float64], [0]])"
    by (rule header_count_result_file) (simp add: int32_ok_def)
  then show ?thesis
    by (simp add: bh_tsne_ok [OF f d] outcome_def mock_engine_def
        read_results_result_file [OF w] result_lt_def)
qed

text \<open>
  C4, amended. The result count of the header is not compared with the number of
  samples. Once the binary has ended with return code 0 and left a result file,
  decoding fails, with struct.error, exactly when the file is shorter than its own
  header announces (or the header asks for vectors of negative length); otherwise
  it yields as many vectors as the header announces, whatever the number of
  samples was.
\<close>

theorem decoding_follows_result_header:
  assumes "samples \<noteq> []"
    and "fields_fit samples (int (length (hd samples))) no_dims randseed"
    and "engine (Some (request_file (int (length samples)) (int (length (hd samples))) theta
           perplexity no_dims (concat samples)
           (if randseed \<noteq> EMPTY_SEED then Some randseed else None))) = (0, Some f)"
  shows "(truncated f \<longrightarrow>
            fst (bh_tsne engine samples no_dims perplexity theta randseed verbose None s)
            = Inl StructError)
     \<and> (\<not> truncated f \<longrightarrow>
            (\<exists>out. fst (bh_tsne engine samples no_dims perplexity theta randseed verbose None s)
                   = Inr out \<and> int (length out) = max 0 (header_count f)))"
proof -
  have o: "fst (bh_tsne engine samples no_dims perplexity theta randseed verbose None s)
      = (case read_results f of Inl e \<Rightarrow> Inl e | Inr (vs, u) \<Rightarrow> Inr vs)"
    using assms(3)
    by (subst bh_tsne_outcome [where d = "int (length (hd samples))"])
      (simp_all add: assms(1,2) outcome_def sent_seed_def)
  show ?thesis
  proof (cases "read_results f")
    case (Inl e)
    from read_results_Inl [OF Inl] Inl o show ?thesis by simp
  next
    case (Inr r)
    obtain out rest where r: "r = (out, rest)" by (cases r)
    from read_results_Inr [OF Inr [unfolded r]] Inr r o show ?thesis by simp
  qed
qed

theorem decoding_follows_result_header_witness:
  "truncated [] \<and> \<not> truncated (result_file [[0], [0]] 1 [0, 1] [])
   \<and> fst (bh_tsne (mock_engine 0 (Some [])) [[0]] 2 DEFAULT_PERPLEXITY DEFAULT_THETA EMPTY_SEED
            False None init) = Inl StructError
   \<and> (\<exists>out. fst (bh_tsne (mock_engine 0 (Some (result_file [[0], [0]] 1 [0, 1] []))) [[0]] 2
                   DEFAULT_PERPLEXITY DEFAULT_THETA EMPTY_SEED False None init) = Inr out
            \<and> int (length out) = 2)"
proof -
  have a: "[[0 :: float64]] \<noteq> []" by simp
  have b: "fields_fit [[0]] (int (length (hd [[0 :: float64]]))) 2 EMPTY_SEED"
    by (simp add: fields_fit_def int32_ok_def)
  have t: "truncated []" by (simp add: truncated_def)
  have w: "well_formed [[0], [0]] 1 [0, 1]"
    by (simp add: well_formed_def int32_ok_def)
  have n: "\<not> truncated (result_file [[0], [0]] 1 [0, 1] [])"
    using w by (rule well_formed_not_truncated)
  have h: "header_count (result_file [[0], [0]] 1 [0, 1] []) = int (length [[0 :: float64], [0]])"
    by (rule header_count_result_file) (simp add: int32_ok_def)
  have 1: "fst (bh_tsne (mock_engine 0 (Some [])) [[0]] 2 DEFAULT_PERPLEXITY DEFAULT_THETA EMPTY_SEED
            False None init) = Inl StructError"
    using decoding_follows_result_header [OF a b, where engine = "mock_engine 0 (Some [])"
        and f = "[]" and theta = DEFAULT_THETA and perplexity = DEFAULT_PERPLEXITY
        and verbose = False and s = init] t
    by (simp add: mock_engine_def)
  have 2: "\<exists>out. fst (bh_tsne (mock_engine 0 (Some (result_file [[0], [0]] 1 [0, 1] []))) [[0]] 2
                   DEFAULT_PERPLEXITY DEFAULT_THETA EMPTY_SEED False None init) = Inr out
            \<and> int (length out) = 2"
    using decoding_follows_result_header [OF a b,
        where engine = "mock_engine 0 (Some (result_file [[0], [0]] 1 [0, 1] []))"
        and f = "result_file [[0], [0]] 1 [0, 1] []" and theta = DEFAULT_THETA
        and perplexity = DEFAULT_PERPLEXITY and verbose = False and s = init] n h
    by (simp add: mock_engine_def)
  from t n 1 2 show ?thesis by blast
qed

text \<open>
  C5, as stated, fails: after the vectors and the indices of a result file for
  one sample, the eight bytes of its cost value are still unread when the file is
  closed.
\<close>

theorem costs_not_read:
  "read_results (result_file [[0]] 1 [0] [0]) = Inr ([[0]], pack_ds [0])
   \<and> length (pack_ds [0 :: float64]) = 8"
proof -
  have w: "well_formed [[0]] 1 [0]"
    by (simp add: well_formed_def int32_ok_def)
  show ?thesis
    by (simp add: read_results_result_file [OF w])
qed

text \<open>
  C5, amended. Reading stops after the index block: the costs of a well-formed
  result file are left unread, whatever they are and however many, and in general
  the bytes left unread are all the bytes after the index block.
\<close>

theorem reading_stops_after_landmarks:
  "(well_formed vs K idxs \<longrightarrow>
      read_results (result_file vs K idxs costs)
      = Inr (map snd (results_sort (zip idxs vs)), pack_ds costs))
   \<and> (read_results f = Inr (out, rest) \<longrightarrow> rest = drop (announced f) f)"
  using read_results_result_file read_results_Inr by blast

theorem reading_stops_after_landmarks_witness:
  "well_formed [[5], [6]] 1 [1, 0]
   \<and> read_results (result_file [[5], [6]] 1 [1, 0] [7, 8]) = Inr ([[6], [5]], pack_ds [7, 8])
   \<and> read_results (result_file [[5], [6]] 1 [1, 0] []) = Inr ([[6], [5]], [])
   \<and> pack_ds [7, 8] = drop (announced (result_file [[5], [6]] 1 [1, 0] [7, 8]))
                          (result_file [[5], [6]] 1 [1, 0] [7, 8])"
proof -
  have w: "well_formed [[5], [6]] 1 [1, 0]"
    by (simp add: well_formed_def int32_ok_def)
  note t = reading_stops_after_landmarks [where vs = "[[5], [6]]" and K = 1 and idxs = "[1, 0]"]
  have 1: "read_results (result_file [[5], [6]] 1 [1, 0] [7, 8]) = Inr ([[6], [5]], pack_ds [7, 8])"
    using t [where costs = "[7, 8]", THEN conjunct1] w by (simp add: result_lt_def)
  have 2: "read_results (result_file [[5], [6]] 1 [1, 0] []) = Inr ([[6], [5]], [])"
    using t [where costs = "[]", THEN conjunct1] w by (simp add: result_lt_def pack_ds_def)
  have 3: "pack_ds [7, 8] = drop (announced (result_file [[5], [6]] 1 [1, 0] [7, 8]))
                          (result_file [[5], [6]] 1 [1, 0] [7, 8])"
    using t [where f = "result_file [[5], [6]] 1 [1, 0] [7, 8]" and out = "[[6], [5]]"
        and rest = "pack_ds [7, 8]", THEN conjunct2] 1 by simp
  from w 1 2 3 show ?thesis by simp
qed

text \<open>
  C6. Once the request is written, the call fails with the AssertionError of
  line 127 if and only if the return code of the binary is not zero; the message
  is \<open>assert_message verbose\<close>, which contains the words
  "enable verbose mode" exactly when \<open>verbose\<close> is off.
\<close>

theorem nonzero_exit_raises:
  assumes "samples \<noteq> []"
    and "fields_fit samples (int (length (hd samples))) no_dims randseed"
  shows "((\<exists>m. fst (bh_tsne engine samples no_dims perplexity theta randseed verbose None s)
               = Inl (AssertionError m))
          \<longleftrightarrow> fst (engine (Some (request_file (int (length samples))
                   (int (length (hd samples))) theta perplexity no_dims (concat samples)
                   (if randseed \<noteq> EMPTY_SEED then Some randseed else None)))) \<noteq> 0)
     \<and> (fst (engine (Some (request_file (int (length samples))
                   (int (length (hd samples))) theta perplexity no_dims (concat samples)
                   (if randseed \<noteq> EMPTY_SEED then Some randseed else None)))) \<noteq> 0
          \<longrightarrow> fst (bh_tsne engine samples no_dims perplexity theta randseed verbose None s)
              = Inl (AssertionError (assert_message verbose)))
     \<and> (sublist ''enable verbose mode'' (assert_message verbose) \<longleftrightarrow> \<not> verbose)"
proof -
  have o: "fst (bh_tsne engine samples no_dims perplexity theta randseed verbose None s)
      = outcome verbose (engine (Some (request_file (int (length samples))
                   (int (length (hd samples))) theta perplexity no_dims (concat samples)
                   (if randseed \<noteq> EMPTY_SEED then Some randseed else None))))"
    by (subst bh_tsne_outcome [where d = "int (length (hd samples))"])
      (simp_all add: assms sent_seed_def)
  have 1: "sublist ''enable verbose mode'' (assert_message verbose) \<longleftrightarrow> \<not> verbose"
    using assert_message_False assert_message_True by (cases verbose) simp_all
  show ?thesis
    unfolding o outcome_assertion using 1 by (simp add: outcome_def)
qed

theorem nonzero_exit_raises_witness:
  "fst (bh_tsne (mock_engine 1 None) [[0]] 2 DEFAULT_PERPLEXITY DEFAULT_THETA EMPTY_SEED False
          None init) = Inl (AssertionError (assert_message False))
   \<and> fst (bh_tsne (mock_engine 1 None) [[0]] 2 DEFAULT_PERPLEXITY DEFAULT_THETA EMPTY_SEED True
          None init) = Inl (AssertionError (assert_message True))
   \<and> \<not> (\<exists>m. fst (bh_tsne (mock_engine 0 None) [[0]] 2 DEFAULT_PERPLEXITY DEFAULT_THETA EMPTY_SEED
          False None init) = Inl (AssertionError m))
   \<and> sublist ''enable verbose mode'' (assert_message False)
   \<and> \<not> sublist ''enable verbose mode'' (assert_message True)"
proof -
  have a: "[[0 :: float64]] \<noteq> []" by simp
  have b: "fields_fit [[0]] (int (length (hd [[0 :: float64]]))) 2 EMPTY_SEED"
    by (simp add: fields_fit_def int32_ok_def)
  note t = nonzero_exit_raises [OF a b, where theta = DEFAULT_THETA
      and perplexity = DEFAULT_PERPLEXITY and s = init]
  have 1: "fst (bh_tsne (mock_engine 1 None) [[0]] 2 DEFAULT_PERPLEXITY DEFAULT_THETA EMPTY_SEED
      False None init) = Inl (AssertionError (assert_message False))"
    using t [where engine = "mock_engine 1 None" and verbose = False, THEN conjunct2, THEN conjunct1]
    by (simp add: mock_engine_def)
  have 2: "fst (bh_tsne (mock_engine 1 None) [[0]] 2 DEFAULT_PERPLEXITY DEFAULT_THETA EMPTY_SEED
      True None init) = Inl (AssertionError (assert_message True))"
    using t [where engine = "mock_engine 1 None" and verbose = True, THEN conjunct2, THEN conjunct1]
    by (simp add: mock_engine_def)
  have 3: "\<not> (\<exists>m. fst (bh_tsne (mock_engine 0 None) [[0]] 2 DEFAULT_PERPLEXITY DEFAULT_THETA
      EMPTY_SEED False None init) = Inl (AssertionError m))"
    using t [where engine = "mock_engine 0 None" and verbose = False, THEN conjunct1]
    by (simp add: mock_engine_def)
  have 4: "sublist ''enable verbose mode'' (assert_message False)"
    using t [where engine = "mock_engine 0 None" and verbose = False, THEN conjunct2, THEN conjunct2]
    by simp
  have 5: "\<not> sublist ''enable verbose mode'' (assert_message True)"
    using t [where engine = "mock_engine 0 None" and verbose = True, THEN conjunct2, THEN conjunct2]
    by simp
  from 1 2 3 4 5 show ?thesis by blast
qed

text \<open>
  C7. Whatever the arguments and whatever the binary does, no temporary directory
  is left when the call ends: either the call failed before \<open>mkdtemp\<close> and
  the state is as it was, or the last action was \<open>rmtree\<close>. The four
  exits, a normal end, a failed \<open>pack\<close>, return code 1 and a result file
  that cannot be decoded, are run below.
\<close>

theorem workspace_always_removed:
  assumes "\<not> tmp_dir s"
  shows "\<not> tmp_dir (snd (bh_tsne engine samples no_dims perplexity theta randseed verbose
                            sample_dim s))
     \<and> (snd (bh_tsne engine samples no_dims perplexity theta randseed verbose sample_dim s) = s
        \<or> last (io_log (snd (bh_tsne engine samples no_dims perplexity theta randseed verbose
                                 sample_dim s))) = Rmtree)"
  using assms
  by (auto simp: bh_tsne_def TmpDir_exit_def Let_def split: option.splits list.splits prod.splits)

theorem workspace_always_removed_witness:
  "\<not> tmp_dir init
   \<and> \<not> tmp_dir (snd (bh_tsne (mock_engine 0 (Some (result_file [[0]] 1 [0] []))) [[0]] 2
                      DEFAULT_PERPLEXITY DEFAULT_THETA EMPTY_SEED False None init))
   \<and> \<not> tmp_dir (snd (bh_tsne (mock_engine 0 None) [[0]] 2147483648
                      DEFAULT_PERPLEXITY DEFAULT_THETA EMPTY_SEED False None init))
   \<and> \<not> tmp_dir (snd (bh_tsne (mock_engine 1 None) [[0]] 2
                      DEFAULT_PERPLEXITY DEFAULT_THETA EMPTY_SEED False None init))
   \<and> \<not> tmp_dir (snd (bh_tsne (mock_engine 0 (Some [])) [[0]] 2
                      DEFAULT_PERPLEXITY DEFAULT_THETA EMPTY_SEED False None init))
   \<and> fst (bh_tsne (mock_engine 0 (Some (result_file [[0]] 1 [0] []))) [[0]] 2
            DEFAULT_PERPLEXITY DEFAULT_THETA EMPTY_SEED False None init) = Inr [[0]]
   \<and> fst (bh_tsne (mock_engine 0 None) [[0]] 2147483648
            DEFAULT_PERPLEXITY DEFAULT_THETA EMPTY_SEED False None init) = Inl StructError
   \<and> fst (bh_tsne (mock_engine 1 None) [[0]] 2
            DEFAULT_PERPLEXITY DEFAULT_THETA EMPTY_SEED False None init)
       = Inl (AssertionError (assert_message False))
   \<and> fst (bh_tsne (mock_engine 0 (Some [])) [[0]] 2
            DEFAULT_PERPLEXITY DEFAULT_THETA EMPTY_SEED False None init) = Inl StructError"
proof -
  have i: "\<not> tmp_dir init" by (simp add: init_def)
  note t = workspace_always_removed [OF i, THEN conjunct1]
  have f: "fields_fit [[0]] 1 2 EMPTY_SEED"
    by (simp add: fields_fit_def int32_ok_def)
  have d: "None = Some (1 :: int) \<or> (None :: int option) = None \<and> [[0 :: float64]] \<noteq> []
      \<and> 1 = int (length (hd [[0 :: float64]]))"
    by simp
  have w: "well_formed [[0]] 1 [0]"
    by (simp add: well_formed_def int32_ok_def)
  have 1: "fst (bh_tsne (mock_engine 0 (Some (result_file [[0]] 1 [0] []))) [[0]] 2
            DEFAULT_PERPLEXITY DEFAULT_THETA EMPTY_SEED False None init) = Inr [[0]]"
    by (simp add: bh_tsne_ok [OF f d] outcome_def mock_engine_def
        read_results_result_file [OF w])
  have 2: "fst (bh_tsne (mock_engine 0 None) [[0]] 2147483648
            DEFAULT_PERPLEXITY DEFAULT_THETA EMPTY_SEED False None init) = Inl StructError"
    by (simp add: bh_tsne_def with_body_def write_request_def pack_iiddi_def int32_ok_def)
  have 3: "fst (bh_tsne (mock_engine 1 None) [[0]] 2
            DEFAULT_PERPLEXITY DEFAULT_THETA EMPTY_SEED False None init)
       = Inl (AssertionError (assert_message False))"
    by (simp add: bh_tsne_ok [OF f d] outcome_def mock_engine_def)
  have 4: "fst (bh_tsne (mock_engine 0 (Some [])) [[0]] 2
            DEFAULT_PERPLEXITY DEFAULT_THETA EMPTY_SEED False None init) = Inl StructError"
    by (simp add: bh_tsne_ok [OF f d] outcome_def mock_engine_def read_results_def
        read_unpack_ii_def fh_read_def)
  from i t 1 2 3 4 show ?thesis by blast
qed

text \<open>
  C8. With the engine that echoes the samples of the request under the indices
  0, ..., N - 1, the call yields the samples it was given: the same bit patterns
  in the same order.
\<close>

theorem echo_round_trip:
  assumes "samples \<noteq> []" and "\<forall>x\<in>set samples. length x = D"
    and "fields_fit samples (int D) no_dims randseed"
  shows "fst (bh_tsne echo_engine samples no_dims perplexity theta randseed verbose None s)
         = Inr samples"
proof -
  have hd: "int D = int (length (hd samples))" using assms(1,2) by (cases samples) simp_all
  have f: "int32_ok (int (length samples))" "int32_ok (int D)"
    using assms(3) by (simp_all add: fields_fit_def)
  have e: "echo_engine (Some (request_file (int (length samples)) (int D) theta perplexity no_dims
        (concat samples) (sent_seed randseed)))
      = (0, Some (result_file samples (int D) (map int [0..<length samples])
                    (replicate (length samples) 0)))"
    using echo_engine_request [OF f length_concat_same [OF assms(2)]]
    by (simp add: result_file_def concat_pack_ds comp_def)
  have r: "read_results (result_file samples (int D) (map int [0..<length samples])
                    (replicate (length samples) 0))
      = Inr (samples, pack_ds (replicate (length samples) 0))"
    using read_results_result_file [OF well_formed_echo [OF f assms(2)]]
    by (simp add: sorted_tags_stay)
  show ?thesis
    by (subst bh_tsne_outcome [where d = "int D"])
      (simp_all add: assms hd [symmetric] e r outcome_def)
qed

theorem echo_round_trip_witness:
  "fst (bh_tsne echo_engine [[1, 2], [3, 4], [5, 6]] 2 DEFAULT_PERPLEXITY DEFAULT_THETA 42 False
          None init) = Inr [[1, 2], [3, 4], [5, 6]]"
proof -
  have a: "[[1, 2], [3, 4], [5, 6 :: float64]] \<noteq> []"
    "\<forall>x\<in>set [[1, 2], [3, 4], [5, 6 :: float64]]. length x = 2"
    by simp_all
  have b: "fields_fit [[1, 2], [3, 4], [5, 6]] (int 2) 2 42"
    by (simp add: fields_fit_def int32_ok_def)
  from echo_round_trip [OF a b] show ?thesis .
qed

text \<open>
  C9. For a non-empty batch of N samples and an engine that ends with return
  code 0 and a well-formed result file of N records, the call yields N vectors.
\<close>

theorem output_length_is_sample_count:
  assumes "samples \<noteq> []"
    and "fields_fit samples (int (length (hd samples))) no_dims randseed"
    and "engine (Some (request_file (int (length samples)) (int (length (hd samples))) theta
           perplexity no_dims (concat samples)
           (if randseed \<noteq> EMPTY_SEED then Some randseed else None)))
         = (0, Some (result_file vs K idxs costs))"
    and "well_formed vs K idxs" and "length vs = length samples"
  shows "\<exists>out. fst (bh_tsne engine samples no_dims perplexity theta randseed verbose None s)
               = Inr out \<and> length out = length samples"
proof -
  have "fst (bh_tsne engine samples no_dims perplexity theta randseed verbose None s)
      = Inr (map snd (results_sort (zip idxs vs)))"
    using assms(3)
    by (subst bh_tsne_outcome [where d = "int (length (hd samples))"])
      (simp_all add: assms(1,2) outcome_def sent_seed_def read_results_result_file [OF assms(4)])
  moreover have "length idxs = length vs" using assms(4) by (simp add: well_formed_def)
  ultimately show ?thesis using assms(5) by simp
qed

theorem output_length_is_sample_count_witness:
  "\<exists>out. fst (bh_tsne (mock_engine 0 (Some (result_file [[5], [6]] 1 [1, 0] [7, 8])))
                [[1, 2, 3], [4, 5, 6]] 1 DEFAULT_PERPLEXITY DEFAULT_THETA EMPTY_SEED False None init)
          = Inr out \<and> length out = 2"
proof -
  have a: "[[1, 2, 3], [4, 5, 6 :: float64]] \<noteq> []" by simp
  have b: "fields_fit [[1, 2, 3], [4, 5, 6]] (int (length (hd [[1, 2, 3], [4, 5, 6 :: float64]]))) 1
      EMPTY_SEED"
    by (simp add: fields_fit_def int32_ok_def)
  have w: "well_formed [[5], [6]] 1 [1, 0]"
    by (simp add: well_formed_def int32_ok_def)
  have l: "length [[5], [6 :: float64]] = length [[1, 2, 3], [4, 5, 6 :: float64]]" by simp
  have e: "mock_engine 0 (Some (result_file [[5], [6]] 1 [1, 0] [7, 8]))
       (Some (request_file (int (length [[1, 2, 3], [4, 5, 6 :: float64]]))
          (int (length (hd [[1, 2, 3], [4, 5, 6 :: float64]]))) DEFAULT_THETA
           DEFAULT_PERPLEXITY 1 (concat [[1, 2, 3], [4, 5, 6]])
           (if EMPTY_SEED \<noteq> EMPTY_SEED then Some EMPTY_SEED else None)))
         = (0, Some (result_file [[5], [6]] 1 [1, 0] [7, 8]))"
    by (simp add: mock_engine_def)
  from output_length_is_sample_count [where engine = "mock_engine 0 (Some (result_file [[5], [6]]
      1 [1, 0] [7, 8]))" and verbose = False and s = init, OF a b e w l]
  show ?thesis by (simp add: numeral_2_eq_2)
qed

text \<open>
  C10. \<open>EMPTY_SEED\<close> is - 1, so a call with the seed - 1 is the call without
  a seed: no seed field is written. Every other seed that fits an int32 is
  appended. Whatever the seed, the written bytes never end in the seed field of
  - 1.
\<close>

theorem empty_seed_never_sent:
  assumes "samples \<noteq> []"
    and "fields_fit samples (int (length (hd samples))) no_dims EMPTY_SEED"
  shows "bh_tsne engine samples no_dims perplexity theta (- 1) verbose None s
         = bh_tsne engine samples no_dims perplexity theta EMPTY_SEED verbose None s
     \<and> written (io_log (snd (bh_tsne engine samples no_dims perplexity theta (- 1) verbose None s)))
         = written (io_log s)
           @ request_file (int (length samples)) (int (length (hd samples))) theta perplexity
               no_dims (concat samples) None
     \<and> (\<forall>r. r \<noteq> - 1 \<and> int32_ok r \<longrightarrow>
          written (io_log (snd (bh_tsne engine samples no_dims perplexity theta r verbose None s)))
          = written (io_log s)
            @ request_file (int (length samples)) (int (length (hd samples))) theta perplexity
                no_dims (concat samples) None
            @ le32 r)
     \<and> (\<forall>r. written (io_log (snd (bh_tsne engine samples no_dims perplexity theta r verbose None s)))
          \<noteq> written (io_log s)
            @ request_file (int (length samples)) (int (length (hd samples))) theta perplexity
                no_dims (concat samples) None
            @ le32 (- 1))"
proof -
  obtain x xs where c: "samples = x # xs" using assms(1) by (cases samples) auto
  have f: "int32_ok (int (length (x # xs)))" "int32_ok (int (length x))" "int32_ok no_dims"
    using assms(2) c by (simp_all add: fields_fit_def)
  let ?base = "request_file (int (length (x # xs))) (int (length x)) theta perplexity
               no_dims (concat (x # xs)) None"
  have w: "written (io_log (snd (bh_tsne engine (x # xs) no_dims perplexity theta r verbose None s)))
      = written (io_log s) @ ?base @ (if r \<noteq> EMPTY_SEED \<and> int32_ok r then le32 r else [])" for r
    unfolding written_bh_tsne using f
    by (auto simp: request_file_def simp del: length_Cons list.size)
  have m: "int32_ok (- 1)" by (simp add: int32_ok_def)
  have "(if r \<noteq> EMPTY_SEED \<and> int32_ok r then le32 r else []) \<noteq> le32 (- 1)" for r
  proof (cases "r \<noteq> EMPTY_SEED \<and> int32_ok r")
    case True
    then have "le32 r \<noteq> le32 (- 1)"
      using le32_inject [OF _ m, of r] by (auto simp: EMPTY_SEED_def)
    with True show ?thesis by simp
  next
    case False
    have "length (le32 (- 1)) = 4" by simp
    then have "[] \<noteq> le32 (- 1)" by (metis list.size(3) zero_neq_numeral)
    then show ?thesis unfolding if_not_P [OF False] .
  qed
  then have 4: "written (io_log (snd (bh_tsne engine (x # xs) no_dims perplexity theta r verbose None s)))
      \<noteq> written (io_log s) @ ?base @ le32 (- 1)" for r
    unfolding w by simp
  have 1: "bh_tsne engine samples no_dims perplexity theta (- 1) verbose None s
         = bh_tsne engine samples no_dims perplexity theta EMPTY_SEED verbose None s"
    by (simp add: EMPTY_SEED_def)
  have 2: "written (io_log (snd (bh_tsne engine (x # xs) no_dims perplexity theta (- 1) verbose None s)))
      = written (io_log s) @ ?base"
    unfolding w by (simp add: EMPTY_SEED_def)
  have 3: "r \<noteq> - 1 \<and> int32_ok r \<longrightarrow>
          written (io_log (snd (bh_tsne engine (x # xs) no_dims perplexity theta r verbose None s)))
          = written (io_log s) @ ?base @ le32 r" for r
    unfolding w by (simp add: EMPTY_SEED_def)
  from 1 2 3 4 show ?thesis unfolding c list.sel by blast
qed

theorem empty_seed_never_sent_witness:
  "written (io_log (snd (bh_tsne echo_engine [[1, 2], [3, 4]] 2 DEFAULT_PERPLEXITY DEFAULT_THETA
                          (- 1) False None init)))
   = request_file 2 2 DEFAULT_THETA DEFAULT_PERPLEXITY 2 [1, 2, 3, 4] None
   \<and> written (io_log (snd (bh_tsne echo_engine [[1, 2], [3, 4]] 2 DEFAULT_PERPLEXITY DEFAULT_THETA
                          (- 2) False None init)))
   = request_file 2 2 DEFAULT_THETA DEFAULT_PERPLEXITY 2 [1, 2, 3, 4] None @ le32 (- 2)"
proof -
  have a: "[[1, 2], [3, 4 :: float64]] \<noteq> []" by simp
  have b: "fields_fit [[1, 2], [3, 4]] (int (length (hd [[1, 2], [3, 4 :: float64]]))) 2 EMPTY_SEED"
    by (simp add: fields_fit_def int32_ok_def)
  have r: "(- 2 :: int) \<noteq> - 1 \<and> int32_ok (- 2)" by (simp add: int32_ok_def)
  note t = empty_seed_never_sent [OF a b, where engine = echo_engine
          and perplexity = DEFAULT_PERPLEXITY and theta = DEFAULT_THETA and verbose = False
          and s = init]
  from t [THEN conjunct2, THEN conjunct1]
  have 1: "written (io_log (snd (bh_tsne echo_engine [[1, 2], [3, 4]] 2 DEFAULT_PERPLEXITY
      DEFAULT_THETA (- 1) False None init)))
      = request_file 2 2 DEFAULT_THETA DEFAULT_PERPLEXITY 2 [1, 2, 3, 4] None"
    by (simp add: init_def)
  from t [THEN conjunct2, THEN conjunct2, THEN conjunct1] r
  have 2: "written (io_log (snd (bh_tsne echo_engine [[1, 2], [3, 4]] 2 DEFAULT_PERPLEXITY
      DEFAULT_THETA (- 2) False None init)))
      = request_file 2 2 DEFAULT_THETA DEFAULT_PERPLEXITY 2 [1, 2, 3, 4] None @ le32 (- 2)"
    by (simp add: init_def)
  from 1 2 show ?thesis by simp
qed

end
